theory Spec2Isabelle
  imports Main
begin

section \<open>Constellation line importer (scripts/import-constellation-lines.py)\<close>

text \<open>
  A shallow embedding of \<^verbatim>\<open>ConstellationImporter\<close>. Python identifiers with a leading
  underscore lose it (\<^verbatim>\<open>_parse_int\<close> is \<open>parse_int\<close>, and so on). Characters are code
  points below 256; Python's unbounded \<^verbatim>\<open>int\<close> is \<open>int\<close>.
\<close>

subsection \<open>Errors\<close>

text \<open>
  Every exception the script can raise is a value. \<open>ValueError_invalid_literal s\<close> and
  \<open>ValueError_digit_limit n\<close> are the two \<^verbatim>\<open>ValueError\<close>s of \<^verbatim>\<open>int(s)\<close> (not an integer
  literal; a literal of \<open>n\<close> digits, more than the interpreter converts);
  \<open>ValueError_count_mismatch c t n\<close> is the one raised in \<^verbatim>\<open>load\<close> (constellation,
  declared count, parsed count). \<open>IsADirectoryError\<close> and \<open>PermissionError\<close> come from the
  existence check and from \<^verbatim>\<open>open\<close>, \<open>UnicodeDecodeError\<close> from decoding the file as UTF-8,
  \<open>csv_Error\<close> from the CSV reader. \<open>OverflowError\<close> is raised by the sqlite3 module when an
  integer parameter does not fit SQLite's signed 64-bit INTEGER; \<open>OperationalError\<close> stands
  for "no such table" and a full rowid space, \<open>IntegrityError\<close> for a violated primary key.
\<close>

datatype error =
    FileNotFoundError
  | IsADirectoryError
  | PermissionError
  | UnicodeDecodeError
  | csv_Error
  | ValueError_invalid_literal string
  | ValueError_digit_limit nat
  | ValueError_count_mismatch string int nat
  | KeyError string
  | OverflowError
  | OperationalError
  | IntegrityError

subsection \<open>Strings: \<^verbatim>\<open>str.strip\<close> and \<^verbatim>\<open>int(str)\<close>\<close>

text \<open>Python's \<^verbatim>\<open>str.isspace\<close> on the code points below 256.\<close>

definition is_space :: "char \<Rightarrow> bool" where
  "is_space c = (of_char c \<in> set [9, 10, 11, 12, 13, 28, 29, 30, 31, 32, 133, 160 :: nat])"

definition strip :: "string \<Rightarrow> string" where
  "strip s = rev (dropWhile is_space (rev (dropWhile is_space s)))"

definition is_digit :: "char \<Rightarrow> bool" where
  "is_digit c = (48 \<le> (of_char c :: nat) \<and> (of_char c :: nat) \<le> 57)"

definition digit_value :: "char \<Rightarrow> int" where
  "digit_value c = int (of_char c) - 48"

text \<open>
  \<^verbatim>\<open>int(s)\<close> in base 10 on a string without surrounding whitespace, in the order the
  interpreter works: an optional sign; the literal may not start with an underscore; the
  run of digits and underscores is scanned, and two underscores in a row or one at its
  end are a syntax error; a run of more than \<^verbatim>\<open>sys.int_max_str_digits\<close> digits (4300 unless
  reconfigured; underscores and the sign do not count) is refused; the run must hold a
  digit and reach the end of the string.
\<close>

definition int_max_str_digits :: nat where
  "int_max_str_digits = 4300"

definition literal_char :: "char \<Rightarrow> bool" where
  "literal_char c = (is_digit c \<or> c = CHR ''_'')"

text \<open>The flag says whether the previous character was an underscore.\<close>

fun underscores_ok :: "bool \<Rightarrow> string \<Rightarrow> bool" where
  "underscores_ok after_underscore [] = (\<not> after_underscore)"
| "underscores_ok after_underscore (c # cs) =
     (if c = CHR ''_'' then \<not> after_underscore \<and> underscores_ok True cs
      else underscores_ok False cs)"

definition py_int :: "string \<Rightarrow> error + int" where
  "py_int s =
     (let body = (case s of c # cs \<Rightarrow> if c = CHR ''+'' \<or> c = CHR ''-'' then cs else s | [] \<Rightarrow> s);
          negative = (case s of c # cs \<Rightarrow> c = CHR ''-'' | [] \<Rightarrow> False);
          run = takeWhile literal_char body;
          rest = dropWhile literal_char body;
          digits = filter is_digit run
      in if (case body of c # cs \<Rightarrow> c = CHR ''_'' | [] \<Rightarrow> False) \<or> \<not> underscores_ok False run
         then Inl (ValueError_invalid_literal s)
         else if int_max_str_digits < length digits
         then Inl (ValueError_digit_limit (length digits))
         else if digits = [] \<or> rest \<noteq> [] then Inl (ValueError_invalid_literal s)
         else Inr ((if negative then - 1 else 1) *
                   foldl (\<lambda>acc c. acc * 10 + digit_value c) 0 digits))"

text \<open>
  \<^verbatim>\<open>_parse_int\<close>: \<^verbatim>\<open>None\<close> for a missing or blank cell, otherwise \<^verbatim>\<open>int(stripped)\<close>.
\<close>

definition parse_int :: "string option \<Rightarrow> error + int option" where
  "parse_int raw =
     (case raw of
        None \<Rightarrow> Inr None
      | Some s \<Rightarrow>
          (let stripped = strip s in
           if stripped = [] then Inr None
           else (case py_int stripped of Inl e \<Rightarrow> Inl e | Inr n \<Rightarrow> Inr (Some n))))"

subsection \<open>The parser\<close>

text \<open>\<^verbatim>\<open>STAR_COLUMNS = tuple(f"s{i:02d}" for i in range(1, 32))\<close>\<close>

definition STAR_COLUMNS :: "string list" where
  "STAR_COLUMNS =
     map (\<lambda>i. [CHR ''s'', char_of (48 + i div 10), char_of (48 + i mod 10)]) [1..<32]"

record ConstellationLine =
  constellation :: string
  line_number :: int
  star_ids :: "int list"

text \<open>
  A row as \<^verbatim>\<open>csv.DictReader\<close> yields it: a dictionary from column name to cell. A column
  the header lacks, and a cell a short row lacks, both read as \<^verbatim>\<open>None\<close> through
  \<^verbatim>\<open>raw.get\<close>.
\<close>

type_synonym csv_row = "string \<rightharpoonup> string"

text \<open>The local variables of the loop in \<^verbatim>\<open>load\<close>.\<close>

record load_state =
  current_constellation :: string
  per_constellation_counter :: "string \<rightharpoonup> int"
  lines :: "ConstellationLine list"

text \<open>\<^verbatim>\<open>abbr = (raw.get("abr") or "").strip()\<close>\<close>

definition abbr_of :: "csv_row \<Rightarrow> string" where
  "abbr_of raw = strip (case raw ''abr'' of None \<Rightarrow> [] | Some s \<Rightarrow> s)"

text \<open>
  The generator expression building \<^verbatim>\<open>star_ids\<close>: the cells of the given columns are
  parsed in order, the first failure is raised, absent values are dropped.
\<close>

fun parse_star_ids :: "csv_row \<Rightarrow> string list \<Rightarrow> error + int list" where
  "parse_star_ids raw [] = Inr []"
| "parse_star_ids raw (column # columns) =
     (case parse_int (raw column) of
        Inl e \<Rightarrow> Inl e
      | Inr sid \<Rightarrow>
          (case parse_star_ids raw columns of
             Inl e \<Rightarrow> Inl e
           | Inr sids \<Rightarrow> Inr (case sid of None \<Rightarrow> sids | Some n \<Rightarrow> n # sids)))"

text \<open>
  The rest of the loop body once the current constellation is known: parse the declared
  count and the star cells, compare, skip an empty row, otherwise count and append.
\<close>

definition load_row_body :: "load_state \<Rightarrow> csv_row \<Rightarrow> error + load_state" where
  "load_row_body st raw =
     (case parse_int (raw ''nr'') of
        Inl e \<Rightarrow> Inl e
      | Inr star_total \<Rightarrow>
          (case parse_star_ids raw STAR_COLUMNS of
             Inl e \<Rightarrow> Inl e
           | Inr sids \<Rightarrow>
               if star_total \<noteq> None \<and> the star_total \<noteq> int (length sids)
               then Inl (ValueError_count_mismatch (current_constellation st)
                           (the star_total) (length sids))
               else if sids = [] then Inr st
               else (case per_constellation_counter st (current_constellation st) of
                       None \<Rightarrow> Inl (KeyError (current_constellation st))
                     | Some n \<Rightarrow>
                         Inr (st\<lparr>per_constellation_counter :=
                                    (per_constellation_counter st)
                                      (current_constellation st \<mapsto> n + 1),
                                  lines := lines st @
                                    [\<lparr>constellation = current_constellation st,
                                      line_number = n + 1,
                                      star_ids = sids\<rparr>]\<rparr>))))"

text \<open>One iteration of \<^verbatim>\<open>for raw in reader\<close>.\<close>

definition load_row :: "load_state \<Rightarrow> csv_row \<Rightarrow> error + load_state" where
  "load_row st raw =
     (let abbr = abbr_of raw in
      if abbr \<noteq> [] then
        load_row_body
          (st\<lparr>current_constellation := abbr,
              per_constellation_counter :=
                (case per_constellation_counter st abbr of
                   None \<Rightarrow> (per_constellation_counter st)(abbr \<mapsto> 0)
                 | Some n \<Rightarrow> per_constellation_counter st)\<rparr>) raw
      else if current_constellation st = [] then Inr st
      else load_row_body st raw)"

fun load_rows :: "load_state \<Rightarrow> csv_row list \<Rightarrow> error + load_state" where
  "load_rows st [] = Inr st"
| "load_rows st (raw # rest) =
     (case load_row st raw of Inl e \<Rightarrow> Inl e | Inr st' \<Rightarrow> load_rows st' rest)"

definition initial_state :: load_state where
  "initial_state =
     \<lparr>current_constellation = [], per_constellation_counter = Map.empty, lines = []\<rparr>"

text \<open>
  What \<^verbatim>\<open>load\<close> meets at the path of the CSV file: no file (\<^verbatim>\<open>exists()\<close> is false); a path
  whose existence check or \<^verbatim>\<open>open\<close> raises (a directory, missing permissions); or a file
  that opens, from which \<^verbatim>\<open>csv.DictReader\<close> yields some rows and then either reaches the
  end of the file or raises (bytes that are not UTF-8, a field the CSV parser refuses).
  The header is read with the first row, so a failure there is a failure after no rows.
\<close>

datatype csv_source =
    Missing
  | Unopenable error
  | Reader "csv_row list" "error option"

text \<open>
  \<^verbatim>\<open>load\<close>: the rows are processed as the reader yields them, so an error of a row comes
  before a later failure of the reader.
\<close>

definition load :: "csv_source \<Rightarrow> error + ConstellationLine list" where
  "load csv =
     (case csv of
        Missing \<Rightarrow> Inl FileNotFoundError
      | Unopenable e \<Rightarrow> Inl e
      | Reader rows ending \<Rightarrow>
          (case load_rows initial_state rows of
             Inl e \<Rightarrow> Inl e
           | Inr st \<Rightarrow>
               (case ending of
                  Some e \<Rightarrow> Inl e
                | None \<Rightarrow> Inr (lines st))))"

subsection \<open>The database\<close>

text \<open>
  The rows of the two tables, in rowid order, and the part of SQLite's state the script
  depends on: whether each table exists, and the entry of \<^verbatim>\<open>sqlite_sequence\<close> that
  \<^verbatim>\<open>AUTOINCREMENT\<close> keeps for \<^verbatim>\<open>constellation_line\<close>. Foreign keys are not enforced
  (the script never turns \<^verbatim>\<open>PRAGMA foreign_keys\<close> on).
\<close>

record constellation_line_row =
  cl_line_id :: int
  cl_constellation :: string
  cl_line_number :: int
  cl_star_count :: int

record constellation_line_star_row =
  cls_line_id :: int
  cls_sequence_index :: int
  cls_bsc_number :: int

record database =
  constellation_line :: "constellation_line_row list option"
  constellation_line_star :: "constellation_line_star_row list option"
  sqlite_sequence :: "int option"

text \<open>
  The sqlite3 module binds a Python \<^verbatim>\<open>int\<close> as a signed 64-bit integer and raises
  \<^verbatim>\<open>OverflowError\<close> when it does not fit.
\<close>

definition fits_int64 :: "int \<Rightarrow> bool" where
  "fits_int64 n = (- (2 ^ 63) \<le> n \<and> n < 2 ^ 63)"

text \<open>
  \<^verbatim>\<open>_create_schema\<close>: the script of \<^verbatim>\<open>executescript\<close> runs outside any transaction
  opened by the module, so each statement is committed as it runs. Dropping
  \<^verbatim>\<open>constellation_line\<close> also removes its \<^verbatim>\<open>sqlite_sequence\<close> entry.
\<close>

definition create_schema :: "database \<Rightarrow> database" where
  "create_schema db =
     \<lparr>constellation_line = Some [], constellation_line_star = Some [],
      sqlite_sequence = None\<rparr>"

text \<open>
  \<^verbatim>\<open>INSERT INTO constellation_line (constellation, line_number, star_count)\<close>: the
  statement is prepared (the table must exist), the parameters are bound, the rowid is one
  more than the largest ever used, and the result carries \<^verbatim>\<open>cursor.lastrowid\<close>.
\<close>

definition insert_line :: "database \<Rightarrow> ConstellationLine \<Rightarrow> error + (database \<times> int)" where
  "insert_line db line =
     (case constellation_line db of
        None \<Rightarrow> Inl OperationalError
      | Some rows \<Rightarrow>
          if \<not> fits_int64 (line_number line) \<or> \<not> fits_int64 (int (length (star_ids line)))
          then Inl OverflowError
          else
            (let line_id = Max (set (0 # (case sqlite_sequence db of None \<Rightarrow> 0 | Some n \<Rightarrow> n)
                                        # map cl_line_id rows)) + 1
             in if \<not> fits_int64 line_id then Inl OperationalError
                else Inr (db\<lparr>constellation_line := Some (rows @
                                [\<lparr>cl_line_id = line_id,
                                  cl_constellation = constellation line,
                                  cl_line_number = line_number line,
                                  cl_star_count = int (length (star_ids line))\<rparr>]),
                              sqlite_sequence := Some line_id\<rparr>, line_id)))"

text \<open>
  \<^verbatim>\<open>cursor.executemany\<close> over \<^verbatim>\<open>enumerate(line.star_ids)\<close>: the statement is prepared,
  then one insert per star runs, in order, starting at position \<open>index\<close>; the first
  failure is raised.
\<close>

fun insert_stars :: "database \<Rightarrow> int \<Rightarrow> nat \<Rightarrow> int list \<Rightarrow> error + database" where
  "insert_stars db line_id index [] =
     (case constellation_line_star db of
        None \<Rightarrow> Inl OperationalError
      | Some rows \<Rightarrow> Inr db)"
| "insert_stars db line_id index (star_id # rest) =
     (case constellation_line_star db of
        None \<Rightarrow> Inl OperationalError
      | Some rows \<Rightarrow>
          if \<not> fits_int64 line_id \<or> \<not> fits_int64 (int index + 1) \<or> \<not> fits_int64 star_id
          then Inl OverflowError
          else if (line_id, int index + 1) \<in>
                    set (map (\<lambda>r. (cls_line_id r, cls_sequence_index r)) rows)
          then Inl IntegrityError
          else insert_stars
                 (db\<lparr>constellation_line_star := Some (rows @
                        [\<lparr>cls_line_id = line_id,
                          cls_sequence_index = int index + 1,
                          cls_bsc_number = star_id\<rparr>])\<rparr>)
                 line_id (Suc index) rest)"

text \<open>\<^verbatim>\<open>_insert_lines\<close>: the loop over the records; an error leaves through \<^verbatim>\<open>finally\<close>.\<close>

fun insert_lines :: "database \<Rightarrow> ConstellationLine list \<Rightarrow> error + database" where
  "insert_lines db [] = Inr db"
| "insert_lines db (line # rest) =
     (case insert_line db line of
        Inl e \<Rightarrow> Inl e
      | Inr (db', line_id) \<Rightarrow>
          (case insert_stars db' line_id 0 (star_ids line) of
             Inl e \<Rightarrow> Inl e
           | Inr db'' \<Rightarrow> insert_lines db'' rest))"

text \<open>
  \<^verbatim>\<open>import_to_db\<close>: the result is the database as it is stored once the \<^verbatim>\<open>with\<close> block
  has been left, and the exception that left it, if any. The schema script is committed
  on its own; the inserts run in the transaction the module opens before the first
  \<^verbatim>\<open>INSERT\<close>, which \<^verbatim>\<open>conn.commit()\<close> commits and which the connection's context
  manager rolls back when an exception passes through it. Creating the parent directory
  and the two \<^verbatim>\<open>PRAGMA\<close> statements do not touch the tables and are left out.
\<close>

definition import_to_db :: "database \<Rightarrow> ConstellationLine list \<Rightarrow> database \<times> error option" where
  "import_to_db db lns =
     (let committed = create_schema db in
      case insert_lines committed lns of
        Inl e \<Rightarrow> (committed, Some e)
      | Inr working \<Rightarrow> (working, None))"

text \<open>
  \<^verbatim>\<open>main\<close>: parse, then persist. A failure of \<^verbatim>\<open>load\<close> leaves the database as it was.
\<close>

definition main :: "csv_source \<Rightarrow> database \<Rightarrow> database \<times> error option" where
  "main csv db =
     (case load csv of
        Inl e \<Rightarrow> (db, Some e)
      | Inr lns \<Rightarrow> import_to_db db lns)"

subsection \<open>Auxiliary notions for the proofs\<close>

text \<open>A cell that \<^verbatim>\<open>_parse_int\<close> reads as absent: missing, or blank once stripped.\<close>

definition blank_cell :: "string option \<Rightarrow> bool" where
  "blank_cell raw = (case raw of None \<Rightarrow> True | Some s \<Rightarrow> strip s = [])"

text \<open>The state of the loop after the abbreviation of a row has been looked at.\<close>

definition enter_row :: "load_state \<Rightarrow> csv_row \<Rightarrow> load_state" where
  "enter_row st raw =
     (if abbr_of raw \<noteq> [] then
        st\<lparr>current_constellation := abbr_of raw,
           per_constellation_counter :=
             (case per_constellation_counter st (abbr_of raw) of
                None \<Rightarrow> (per_constellation_counter st)(abbr_of raw \<mapsto> 0)
              | Some n \<Rightarrow> per_constellation_counter st)\<rparr>
      else st)"

text \<open>The \<^verbatim>\<open>continue\<close> of a row met before any constellation is known.\<close>

definition row_skipped :: "load_state \<Rightarrow> csv_row \<Rightarrow> bool" where
  "row_skipped st raw = (abbr_of raw = [] \<and> current_constellation st = [])"

text \<open>
  The invariant of the loop in \<^verbatim>\<open>load\<close>: the current constellation has a counter, each
  counter is the number of records of its constellation so far (a missing counter reads
  as 0), and the line numbers of each constellation are 1, 2, ... in order.
\<close>

definition lines_of :: "string \<Rightarrow> ConstellationLine list \<Rightarrow> ConstellationLine list" where
  "lines_of c lns = filter (\<lambda>l. constellation l = c) lns"

definition current_counted :: "load_state \<Rightarrow> bool" where
  "current_counted st =
     (current_constellation st = [] \<or>
      per_constellation_counter st (current_constellation st) \<noteq> None)"

definition counter_value :: "load_state \<Rightarrow> string \<Rightarrow> int" where
  "counter_value st c = (case per_constellation_counter st c of None \<Rightarrow> 0 | Some n \<Rightarrow> n)"

definition counter_agrees :: "load_state \<Rightarrow> bool" where
  "counter_agrees st = (\<forall>c. counter_value st c = int (length (lines_of c (lines st))))"

definition dense :: "ConstellationLine list \<Rightarrow> bool" where
  "dense lns =
     (\<forall>c. map line_number (lines_of c lns) = map int [1..<Suc (length (lines_of c lns))])"

definition load_invariant :: "load_state \<Rightarrow> bool" where
  "load_invariant st = (current_counted st \<and> counter_agrees st \<and> dense (lines st))"

text \<open>
  The rows the importer is meant to store for a list of records: line ids count up from
  \<open>k\<close>, sequence indexes from 1.
\<close>

fun line_rows :: "int \<Rightarrow> ConstellationLine list \<Rightarrow> constellation_line_row list" where
  "line_rows k [] = []"
| "line_rows k (l # ls) =
     \<lparr>cl_line_id = k, cl_constellation = constellation l, cl_line_number = line_number l,
      cl_star_count = int (length (star_ids l))\<rparr> # line_rows (k + 1) ls"

fun star_rows_of :: "int \<Rightarrow> nat \<Rightarrow> int list \<Rightarrow> constellation_line_star_row list" where
  "star_rows_of k i [] = []"
| "star_rows_of k i (s # ss) =
     \<lparr>cls_line_id = k, cls_sequence_index = int i + 1, cls_bsc_number = s\<rparr>
       # star_rows_of k (Suc i) ss"

fun star_rows :: "int \<Rightarrow> ConstellationLine list \<Rightarrow> constellation_line_star_row list" where
  "star_rows k [] = []"
| "star_rows k (l # ls) = star_rows_of k 0 (star_ids l) @ star_rows (k + 1) ls"

definition stored_after :: "ConstellationLine list \<Rightarrow> database" where
  "stored_after lns =
     \<lparr>constellation_line = Some (line_rows 1 lns),
      constellation_line_star = Some (star_rows 1 lns),
      sqlite_sequence = (if lns = [] then None else Some (int (length lns)))\<rparr>"

text \<open>The rows of \<^verbatim>\<open>constellation_line_star\<close> that reference a line id.\<close>

definition stars_of_line :: "constellation_line_star_row list \<Rightarrow> int \<Rightarrow> constellation_line_star_row list" where
  "stars_of_line srows k = filter (\<lambda>s. cls_line_id s = k) srows"

text \<open>
  The most recently seen non-blank constellation code among the given rows; empty when
  no row has one.
\<close>

definition last_code :: "csv_row list \<Rightarrow> string" where
  "last_code rows =
     (case filter (\<lambda>r. abbr_of r \<noteq> []) (rev rows) of [] \<Rightarrow> [] | r # _ \<Rightarrow> abbr_of r)"

text \<open>A cell whose stripped text is not blank and is not an integer literal.\<close>

definition invalid_cell :: "string option \<Rightarrow> bool" where
  "invalid_cell raw = isl (parse_int raw)"

definition row_invalid_literal :: "csv_row \<Rightarrow> bool" where
  "row_invalid_literal raw =
     (invalid_cell (raw ''nr'') \<or> list_ex (\<lambda>column. invalid_cell (raw column)) STAR_COLUMNS)"

definition nonblank_star_cells :: "csv_row \<Rightarrow> nat" where
  "nonblank_star_cells raw = length (filter (\<lambda>column. \<not> blank_cell (raw column)) STAR_COLUMNS)"

text \<open>The row carries a declared count, and it is not the number of its non-blank star cells.\<close>

definition declared_count_differs :: "csv_row \<Rightarrow> bool" where
  "declared_count_differs raw =
     (case parse_int (raw ''nr'') of
        Inr (Some t) \<Rightarrow> t \<noteq> int (nonblank_star_cells raw)
      | _ \<Rightarrow> False)"

definition row_raises :: "csv_row \<Rightarrow> bool" where
  "row_raises raw = (row_invalid_literal raw \<or> declared_count_differs raw)"

text \<open>
  The rows processed once a current constellation is established: those from the first
  row with a non-blank abbreviation on.
\<close>

definition processed_rows :: "csv_row list \<Rightarrow> csv_row list" where
  "processed_rows rows = dropWhile (\<lambda>r. abbr_of r = []) rows"

text \<open>A row read under a header that lacks the columns \<open>M\<close>.\<close>

definition without_columns :: "string set \<Rightarrow> csv_row \<Rightarrow> csv_row" where
  "without_columns M raw = (\<lambda>column. if column \<in> M then None else raw column)"

text \<open>The same row with the columns \<open>M\<close> present and their cells blank.\<close>

definition with_blank_columns :: "string set \<Rightarrow> csv_row \<Rightarrow> csv_row" where
  "with_blank_columns M raw = (\<lambda>column. if column \<in> M then Some [] else raw column)"



subsection \<open>Sample inputs\<close>

definition single_star_row :: csv_row where
  "single_star_row = map_of [(''abr'', ''AND''), (''nr'', ''1''), (''s01'', ''5'')]"

definition two_star_row :: csv_row where
  "two_star_row = map_of [(''abr'', ''AND''), (''nr'', ''2''), (''s01'', ''1''), (''s02'', ''-2'')]"

definition empty_db :: database where
  "empty_db = \<lparr>constellation_line = None, constellation_line_star = None, sqlite_sequence = None\<rparr>"

definition sample_lines :: "ConstellationLine list" where
  "sample_lines =
     [\<lparr>constellation = ''AND'', line_number = 1, star_ids = [1, - 2]\<rparr>,
      \<lparr>constellation = ''ORI'', line_number = 1, star_ids = [0, 7, 9]\<rparr>]"

definition sample_db :: database where
  "sample_db =
     \<lparr>constellation_line = Some
        [\<lparr>cl_line_id = 1, cl_constellation = ''AND'', cl_line_number = 1, cl_star_count = 2\<rparr>,
         \<lparr>cl_line_id = 2, cl_constellation = ''ORI'', cl_line_number = 1, cl_star_count = 3\<rparr>],
      constellation_line_star = Some
        [\<lparr>cls_line_id = 1, cls_sequence_index = 1, cls_bsc_number = 1\<rparr>,
         \<lparr>cls_line_id = 1, cls_sequence_index = 2, cls_bsc_number = - 2\<rparr>,
         \<lparr>cls_line_id = 2, cls_sequence_index = 1, cls_bsc_number = 0\<rparr>,
         \<lparr>cls_line_id = 2, cls_sequence_index = 2, cls_bsc_number = 7\<rparr>,
         \<lparr>cls_line_id = 2, cls_sequence_index = 3, cls_bsc_number = 9\<rparr>],
      sqlite_sequence = Some 2\<rparr>"

text \<open>A row whose star id is \<open>2 ^ 63\<close>, one more than SQLite's largest INTEGER.\<close>

definition overflow_row :: csv_row where
  "overflow_row = map_of [(''abr'', ''AND''), (''s01'', ''9223372036854775808'')]"

definition overflow_lines :: "ConstellationLine list" where
  "overflow_lines =
     [\<lparr>constellation = ''AND'', line_number = 1, star_ids = [1, - 2]\<rparr>,
      \<lparr>constellation = ''AND'', line_number = 2, star_ids = [3, 9223372036854775808]\<rparr>]"

definition cleared_db :: database where
  "cleared_db =
     \<lparr>constellation_line = Some [], constellation_line_star = Some [], sqlite_sequence = None\<rparr>"

definition blank_row :: csv_row where
  "blank_row = map_of [(''abr'', ''''), (''nr'', ''0''), (''s01'', '' '')]"

definition second_row :: csv_row where
  "second_row = map_of [(''abr'', '' ''), (''s03'', ''3''), (''s04'', ''4'')]"

definition after_first_row :: load_state where
  "after_first_row =
     \<lparr>current_constellation = ''AND'',
      per_constellation_counter = [''AND'' \<mapsto> 1],
      lines = [\<lparr>constellation = ''AND'', line_number = 1, star_ids = [1, - 2]\<rparr>]\<rparr>"

definition invalid_literal_row :: csv_row where
  "invalid_literal_row = map_of [(''abr'', ''AND''), (''s01'', ''x'')]"

definition mismatch_row :: csv_row where
  "mismatch_row = map_of [(''abr'', ''AND''), (''nr'', ''5''), (''s01'', ''1''), (''s02'', ''2''), (''s03'', ''3'')]"

definition abr_only_row :: csv_row where
  "abr_only_row = map_of [(''abr'', ''AND'')]"

section \<open>Properties of the parser\<close>

lemma length_STAR_COLUMNS: "length STAR_COLUMNS = 31"
  by (simp add: STAR_COLUMNS_def)

lemma parse_int_None_iff: "parse_int raw = Inr None \<longleftrightarrow> blank_cell raw"
  by (cases raw) (simp_all add: blank_cell_def parse_int_def Let_def split: sum.splits)

lemma parse_int_Some_nonblank: "parse_int raw = Inr (Some n) \<Longrightarrow> \<not> blank_cell raw"
  using parse_int_None_iff [of raw] by simp

lemma parse_star_ids_Cons_Inr:
  assumes "parse_star_ids raw (column # columns) = Inr sids"
  obtains sid rest where "parse_int (raw column) = Inr sid"
    and "parse_star_ids raw columns = Inr rest"
    and "sids = (case sid of None \<Rightarrow> rest | Some n \<Rightarrow> n # rest)"
proof (cases "parse_int (raw column)")
  case (Inl e)
  with assms show ?thesis by simp
next
  case (Inr sid)
  note sid = this
  show ?thesis
  proof (cases "parse_star_ids raw columns")
    case (Inl e)
    with assms sid show ?thesis by simp
  next
    case (Inr rest)
    with assms sid that show ?thesis by simp
  qed
qed

lemma parse_star_ids_length:
  "parse_star_ids raw columns = Inr sids \<Longrightarrow>
     length sids = length (filter (\<lambda>c. \<not> blank_cell (raw c)) columns)"
proof (induction columns arbitrary: sids)
  case Nil
  then show ?case by simp
next
  case (Cons column columns)
  from Cons.prems obtain sid rest where sid: "parse_int (raw column) = Inr sid"
    and rest: "parse_star_ids raw columns = Inr rest"
    and sids: "sids = (case sid of None \<Rightarrow> rest | Some n \<Rightarrow> n # rest)"
    by (rule parse_star_ids_Cons_Inr)
  have IH: "length rest = length (filter (\<lambda>c. \<not> blank_cell (raw c)) columns)"
    using Cons.IH [OF rest] .
  show ?case
  proof (cases sid)
    case None
    with sid have "blank_cell (raw column)" by (simp add: parse_int_None_iff)
    with None sids IH show ?thesis by simp
  next
    case (Some n)
    with sid have "\<not> blank_cell (raw column)" by (simp add: parse_int_Some_nonblank)
    with Some sids IH show ?thesis by simp
  qed
qed

lemma parse_star_ids_le: "parse_star_ids raw columns = Inr sids \<Longrightarrow> length sids \<le> length columns"
  by (simp add: parse_star_ids_length)

lemma load_row_eq:
  "load_row st raw = (if row_skipped st raw then Inr st else load_row_body (enter_row st raw) raw)"
  by (simp add: load_row_def enter_row_def row_skipped_def Let_def)

lemma lines_enter_row [simp]: "lines (enter_row st raw) = lines st"
  by (simp add: enter_row_def)

lemma load_row_body_Inr:
  assumes "load_row_body st raw = Inr st'"
  obtains (skip) "parse_star_ids raw STAR_COLUMNS = Inr []" and "st' = st"
  | (append) sids n where "parse_star_ids raw STAR_COLUMNS = Inr sids" and "sids \<noteq> []"
      and "per_constellation_counter st (current_constellation st) = Some n"
      and "st' = st\<lparr>per_constellation_counter :=
                      (per_constellation_counter st)(current_constellation st \<mapsto> n + 1),
                    lines := lines st @
                      [\<lparr>constellation = current_constellation st, line_number = n + 1,
                        star_ids = sids\<rparr>]\<rparr>"
proof (cases "parse_int (raw ''nr'')")
  case (Inl e)
  with assms show ?thesis by (simp add: load_row_body_def)
next
  case (Inr star_total)
  note total = this
  show ?thesis
  proof (cases "parse_star_ids raw STAR_COLUMNS")
    case (Inl e)
    with assms total show ?thesis by (simp add: load_row_body_def)
  next
    case (Inr sids)
    note sids = this
    show ?thesis
    proof (cases "sids = []")
      case True
      with assms total sids have "st' = st"
        by (simp add: load_row_body_def split: if_splits)
      with True sids skip show ?thesis by simp
    next
      case False
      show ?thesis
      proof (cases "per_constellation_counter st (current_constellation st)")
        case None
        with assms total sids False show ?thesis
          by (simp add: load_row_body_def split: if_splits)
      next
        case (Some n)
        with assms total sids False have "st' = st\<lparr>per_constellation_counter :=
                      (per_constellation_counter st)(current_constellation st \<mapsto> n + 1),
                    lines := lines st @
                      [\<lparr>constellation = current_constellation st, line_number = n + 1,
                        star_ids = sids\<rparr>]\<rparr>"
          by (simp add: load_row_body_def split: if_splits)
        with sids False Some append show ?thesis by blast
      qed
    qed
  qed
qed

lemma load_row_lines:
  assumes "load_row st raw = Inr st'"
  shows "lines st' = lines st \<or>
     (\<exists>sids n. parse_star_ids raw STAR_COLUMNS = Inr sids \<and> sids \<noteq> [] \<and>
        lines st' = lines st @
          [\<lparr>constellation = current_constellation st', line_number = n, star_ids = sids\<rparr>])"
proof (cases "row_skipped st raw")
  case True
  with assms show ?thesis by (simp add: load_row_eq)
next
  case False
  with assms have body: "load_row_body (enter_row st raw) raw = Inr st'"
    by (simp add: load_row_eq)
  from body show ?thesis
  proof (cases rule: load_row_body_Inr)
    case skip
    then show ?thesis by simp
  next
    case (append sids n)
    then show ?thesis by simp
  qed
qed

lemma parse_star_ids_31: "parse_star_ids raw STAR_COLUMNS = Inr sids \<Longrightarrow> length sids \<le> 31"
  using parse_star_ids_le [of raw STAR_COLUMNS sids] by (simp add: length_STAR_COLUMNS)

lemma load_rows_star_ids_bounds:
  assumes "load_rows st rows = Inr st'"
    and "\<forall>l \<in> set (lines st). star_ids l \<noteq> [] \<and> length (star_ids l) \<le> 31"
  shows "\<forall>l \<in> set (lines st'). star_ids l \<noteq> [] \<and> length (star_ids l) \<le> 31"
  using assms
proof (induction rows arbitrary: st)
  case Nil
  then show ?case by simp
next
  case (Cons raw rows)
  from Cons.prems(1) obtain st1 where step: "load_row st raw = Inr st1"
    and rest: "load_rows st1 rows = Inr st'"
    by (cases "load_row st raw") simp_all
  have "\<forall>l \<in> set (lines st1). star_ids l \<noteq> [] \<and> length (star_ids l) \<le> 31"
    using load_row_lines [OF step] Cons.prems(2) parse_star_ids_31
    by auto
  with rest show ?case by (rule Cons.IH)
qed

lemma load_two_star_row:
  "load (Reader [two_star_row] None) =
     Inr [\<lparr>constellation = ''AND'', line_number = 1, star_ids = [1, - 2]\<rparr>]"
  by code_simp

lemma current_counted_enter_row:
  "current_counted st \<Longrightarrow> current_counted (enter_row st raw)"
  by (simp add: current_counted_def enter_row_def split: option.splits)

lemma current_enter_row:
  "\<not> row_skipped st raw \<Longrightarrow> current_constellation (enter_row st raw) \<noteq> []"
  by (simp add: row_skipped_def enter_row_def)

lemma counter_value_enter_row [simp]: "counter_value (enter_row st raw) c = counter_value st c"
  by (simp add: counter_value_def enter_row_def split: option.splits)

lemma counter_agrees_enter_row:
  "counter_agrees st \<Longrightarrow> counter_agrees (enter_row st raw)"
  by (simp add: counter_agrees_def)

lemma lines_of_append [simp]: "lines_of c (xs @ ys) = lines_of c xs @ lines_of c ys"
  by (simp add: lines_of_def)

lemma lines_of_single:
  "lines_of c [l] = (if constellation l = c then [l] else [])"
  by (simp add: lines_of_def)

lemma load_row_body_agrees:
  assumes "load_row_body st raw = Inr st'" and "counter_agrees st" and "dense (lines st)"
  shows "counter_agrees st' \<and> dense (lines st')"
  using assms(1)
proof (cases rule: load_row_body_Inr)
  case skip
  with assms show ?thesis by simp
next
  case (append sids n)
  let ?cur = "current_constellation st"
  let ?new = "\<lparr>constellation = ?cur, line_number = n + 1, star_ids = sids\<rparr>"
  from assms(2) have "counter_value st ?cur = int (length (lines_of ?cur (lines st)))"
    by (simp add: counter_agrees_def)
  with append(3) have n: "n = int (length (lines_of ?cur (lines st)))"
    by (simp add: counter_value_def)
  have lines': "lines st' = lines st @ [?new]" and
    counter': "per_constellation_counter st' = (per_constellation_counter st)(?cur \<mapsto> n + 1)"
    using append(4) by simp_all
  have agrees: "counter_agrees st'"
    unfolding counter_agrees_def
  proof
    fix c
    from assms(2) have old: "counter_value st c = int (length (lines_of c (lines st)))"
      by (simp add: counter_agrees_def)
    show "counter_value st' c = int (length (lines_of c (lines st')))"
    proof (cases "c = ?cur")
      case True
      then show ?thesis by (simp add: counter_value_def lines' counter' lines_of_single n)
    next
      case False
      with old show ?thesis by (simp add: counter_value_def lines' counter' lines_of_single)
    qed
  qed
  have "dense (lines st')"
    unfolding dense_def
  proof
    fix c
    from assms(3) have old: "map line_number (lines_of c (lines st)) =
        map int [1..<Suc (length (lines_of c (lines st)))]"
      by (simp add: dense_def)
    show "map line_number (lines_of c (lines st')) =
        map int [1..<Suc (length (lines_of c (lines st')))]"
    proof (cases "c = ?cur")
      case True
      with old show ?thesis by (simp add: lines' lines_of_single n)
    next
      case False
      with old show ?thesis by (simp add: lines' lines_of_single)
    qed
  qed
  with agrees show ?thesis by simp
qed

lemma load_row_body_counted:
  assumes "load_row_body st raw = Inr st'" and "current_counted st"
  shows "current_counted st'"
  using assms(1)
proof (cases rule: load_row_body_Inr)
  case skip
  with assms show ?thesis by simp
next
  case (append sids n)
  then show ?thesis by (simp add: current_counted_def)
qed

lemma load_row_invariant:
  assumes "load_row st raw = Inr st'" and "load_invariant st"
  shows "load_invariant st'"
proof (cases "row_skipped st raw")
  case True
  with assms show ?thesis by (simp add: load_row_eq)
next
  case False
  with assms have body: "load_row_body (enter_row st raw) raw = Inr st'"
    by (simp add: load_row_eq)
  from assms(2) have "current_counted (enter_row st raw)" "counter_agrees (enter_row st raw)"
    "dense (lines (enter_row st raw))"
    by (simp_all add: load_invariant_def current_counted_enter_row counter_agrees_enter_row)
  with load_row_body_agrees [OF body] load_row_body_counted [OF body]
  show ?thesis by (simp add: load_invariant_def)
qed

lemma load_rows_invariant:
  "load_rows st rows = Inr st' \<Longrightarrow> load_invariant st \<Longrightarrow> load_invariant st'"
proof (induction rows arbitrary: st)
  case Nil
  then show ?case by simp
next
  case (Cons raw rows)
  from Cons.prems(1) obtain st1 where step: "load_row st raw = Inr st1"
    and rest: "load_rows st1 rows = Inr st'"
    by (cases "load_row st raw") simp_all
  from load_row_invariant [OF step Cons.prems(2)] Cons.IH [OF rest] show ?case by simp
qed

lemma load_invariant_initial: "load_invariant initial_state"
  by (simp add: load_invariant_def current_counted_def counter_agrees_def counter_value_def
      dense_def initial_state_def lines_of_def)

lemma load_Some_Inr:
  assumes "load csv = Inr lns"
  obtains rows st where "csv = Reader rows None" and "load_rows initial_state rows = Inr st"
    and "lns = lines st"
proof (cases csv)
  case Missing
  with assms show ?thesis by (simp add: load_def)
next
  case (Unopenable e)
  with assms show ?thesis by (simp add: load_def)
next
  case (Reader rows ending)
  show ?thesis
  proof (cases "load_rows initial_state rows")
    case (Inl e)
    with assms Reader show ?thesis by (simp add: load_def)
  next
    case (Inr st)
    with assms Reader have "ending = None" and "lns = lines st"
      by (cases ending; simp add: load_def)+
    with Reader Inr that show ?thesis by simp
  qed
qed

lemma load_dense: "load csv = Inr lns \<Longrightarrow> dense lns"
proof -
  assume "load csv = Inr lns"
  then obtain rows st where "load_rows initial_state rows = Inr st" and "lns = lines st"
    by (rule load_Some_Inr)
  with load_rows_invariant [OF _ load_invariant_initial] show "dense lns"
    by (simp add: load_invariant_def)
qed

section \<open>Properties of the importer\<close>

lemma insert_stars_Inr:
  "insert_stars db k i ss = Inr db' \<Longrightarrow> constellation_line_star db = Some srows \<Longrightarrow>
     db' = db\<lparr>constellation_line_star := Some (srows @ star_rows_of k i ss)\<rparr>"
proof (induction ss arbitrary: db i srows)
  case Nil
  then show ?case by simp
next
  case (Cons s ss)
  let ?db1 = "db\<lparr>constellation_line_star := Some (srows @
                 [\<lparr>cls_line_id = k, cls_sequence_index = int i + 1, cls_bsc_number = s\<rparr>])\<rparr>"
  from Cons.prems have rest: "insert_stars ?db1 k (Suc i) ss = Inr db'"
    by (simp split: if_splits)
  have "constellation_line_star ?db1 = Some (srows @
                 [\<lparr>cls_line_id = k, cls_sequence_index = int i + 1, cls_bsc_number = s\<rparr>])"
    by simp
  from Cons.IH [OF rest this] show ?case by simp
qed

lemma line_rows_append:
  "line_rows k (xs @ ys) = line_rows k xs @ line_rows (k + int (length xs)) ys"
  by (induction xs arbitrary: k) (simp_all add: add.assoc)

lemma star_rows_append:
  "star_rows k (xs @ ys) = star_rows k xs @ star_rows (k + int (length xs)) ys"
  by (induction xs arbitrary: k) (simp_all add: add.assoc)

lemma line_rows_ids: "r \<in> set (line_rows k ls) \<Longrightarrow> k \<le> cl_line_id r \<and> cl_line_id r < k + int (length ls)"
proof (induction ls arbitrary: k)
  case Nil
  then show ?case by simp
next
  case (Cons l ls)
  from Cons.prems consider "cl_line_id r = k" | "r \<in> set (line_rows (k + 1) ls)"
    by auto
  then show ?case
  proof cases
    case 1
    then show ?thesis by simp
  next
    case 2
    from Cons.IH [OF this] show ?thesis by simp
  qed
qed

lemma largest_line_id:
  "Max (set (0 # (case (if lns = [] then None else Some (int (length lns))) of
                    None \<Rightarrow> 0 | Some n \<Rightarrow> n) # map cl_line_id (line_rows 1 lns)))
     = int (length lns)"
proof (rule Max_eqI)
  show "finite (set (0 # (case (if lns = [] then None else Some (int (length lns))) of
                    None \<Rightarrow> 0 | Some n \<Rightarrow> n) # map cl_line_id (line_rows 1 lns)))"
    by simp
  show "int (length lns) \<in> set (0 # (case (if lns = [] then None else Some (int (length lns))) of
                    None \<Rightarrow> 0 | Some n \<Rightarrow> n) # map cl_line_id (line_rows 1 lns))"
    by simp
  fix y
  assume "y \<in> set (0 # (case (if lns = [] then None else Some (int (length lns))) of
                    None \<Rightarrow> 0 | Some n \<Rightarrow> n) # map cl_line_id (line_rows 1 lns))"
  then consider "y = 0" | "y = int (length lns)" | r where "r \<in> set (line_rows 1 lns)" "y = cl_line_id r"
    by (auto split: if_splits)
  then show "y \<le> int (length lns)"
  proof cases
    case 3
    with line_rows_ids [of r 1 lns] show ?thesis by simp
  qed simp_all
qed

lemma insert_line_stored:
  assumes "insert_line (stored_after pre) l = Inr (db', k)"
  shows "k = int (length pre) + 1"
    and "db' = (stored_after pre)\<lparr>constellation_line := Some (line_rows 1 (pre @ [l])),
                                  sqlite_sequence := Some (int (length pre) + 1)\<rparr>"
proof -
  have eq: "Max (set (0 # (case sqlite_sequence (stored_after pre) of None \<Rightarrow> 0 | Some n \<Rightarrow> n)
                  # map cl_line_id (line_rows 1 pre))) = int (length pre)"
    using largest_line_id [of pre] by (simp only: stored_after_def database.simps)
  have tbl: "constellation_line (stored_after pre) = Some (line_rows 1 pre)"
    by (simp add: stored_after_def)
  from assms show "k = int (length pre) + 1"
    unfolding insert_line_def Let_def tbl option.case eq
    by (simp split: if_splits)
  from assms show "db' = (stored_after pre)\<lparr>constellation_line := Some (line_rows 1 (pre @ [l])),
                                  sqlite_sequence := Some (int (length pre) + 1)\<rparr>"
    unfolding insert_line_def Let_def tbl option.case eq
    by (auto simp add: line_rows_append add.commute split: if_splits)
qed

lemma insert_lines_stored:
  "insert_lines (stored_after pre) lns = Inr db' \<Longrightarrow> db' = stored_after (pre @ lns)"
proof (induction lns arbitrary: pre)
  case Nil
  then show ?case by simp
next
  case (Cons l lns)
  from Cons.prems obtain db1 k where line: "insert_line (stored_after pre) l = Inr (db1, k)"
    by (cases "insert_line (stored_after pre) l") auto
  from Cons.prems line obtain db2 where stars: "insert_stars db1 k 0 (star_ids l) = Inr db2"
    and rest: "insert_lines db2 lns = Inr db'"
    by (cases "insert_stars db1 k 0 (star_ids l)") auto
  note k = insert_line_stored(1) [OF line] and db1 = insert_line_stored(2) [OF line]
  have "constellation_line_star db1 = Some (star_rows 1 pre)"
    by (simp add: db1 stored_after_def)
  from insert_stars_Inr [OF stars this]
  have "db2 = stored_after (pre @ [l])"
    by (simp add: db1 k stored_after_def star_rows_append add.commute)
  with rest have "insert_lines (stored_after (pre @ [l])) lns = Inr db'" by simp
  from Cons.IH [OF this] show ?case by simp
qed

lemma create_schema_stored: "create_schema db = stored_after []"
  by (simp add: create_schema_def stored_after_def)

lemma import_to_db_success:
  assumes "import_to_db db lns = (db', None)"
  shows "db' = stored_after lns"
proof (cases "insert_lines (stored_after []) lns")
  case (Inl e)
  with assms show ?thesis by (simp add: import_to_db_def create_schema_stored)
next
  case (Inr working)
  with assms have "db' = working" by (simp add: import_to_db_def create_schema_stored)
  with insert_lines_stored [OF Inr] show ?thesis by simp
qed

lemma import_to_db_failure:
  assumes "import_to_db db lns = (db', Some e)"
  shows "db' = stored_after []"
  using assms
  by (cases "insert_lines (stored_after []) lns") (simp_all add: import_to_db_def create_schema_stored)

lemma length_line_rows: "length (line_rows k lns) = length lns"
  by (induction lns arbitrary: k) simp_all

lemma length_star_rows_of: "length (star_rows_of k i ss) = length ss"
  by (induction ss arbitrary: i) simp_all

lemma length_star_rows: "length (star_rows k lns) = (\<Sum>l\<leftarrow>lns. length (star_ids l))"
  by (induction lns arbitrary: k) (simp_all add: length_star_rows_of)

lemma star_rows_of_line_id: "r \<in> set (star_rows_of k i ss) \<Longrightarrow> cls_line_id r = k"
  by (induction ss arbitrary: i) auto

lemma star_rows_ids:
  "r \<in> set (star_rows k ls) \<Longrightarrow> k \<le> cls_line_id r \<and> cls_line_id r < k + int (length ls)"
proof (induction ls arbitrary: k)
  case Nil
  then show ?case by simp
next
  case (Cons l ls)
  from Cons.prems consider "r \<in> set (star_rows_of k 0 (star_ids l))" | "r \<in> set (star_rows (k + 1) ls)"
    by auto
  then show ?case
  proof cases
    case 1
    then have "cls_line_id r = k" by (rule star_rows_of_line_id)
    then show ?thesis by simp
  next
    case 2
    from Cons.IH [OF this] show ?thesis by simp
  qed
qed

lemma filter_star_rows_of_same: "filter (\<lambda>s. cls_line_id s = k) (star_rows_of k i ss) = star_rows_of k i ss"
  by (rule filter_True) (simp add: star_rows_of_line_id)

lemma filter_star_rows_of_other: "k' \<noteq> k \<Longrightarrow> filter (\<lambda>s. cls_line_id s = k') (star_rows_of k i ss) = []"
  by (rule filter_False) (auto dest: star_rows_of_line_id)

lemma filter_star_rows_below: "k' < k \<Longrightarrow> filter (\<lambda>s. cls_line_id s = k') (star_rows k ls) = []"
  by (rule filter_False) (auto dest: star_rows_ids)

lemma stars_of_line_star_rows:
  "j < length ls \<Longrightarrow>
     stars_of_line (star_rows k ls) (k + int j) = star_rows_of (k + int j) 0 (star_ids (ls ! j))"
proof (induction ls arbitrary: k j)
  case Nil
  then show ?case by simp
next
  case (Cons l ls)
  show ?case
  proof (cases j)
    case 0
    then show ?thesis
      by (simp add: stars_of_line_def filter_star_rows_of_same filter_star_rows_below)
  next
    case (Suc j')
    with Cons.prems have "j' < length ls" by simp
    from Cons.IH [OF this, of "k + 1"]
    have "stars_of_line (star_rows (k + 1) ls) (k + int j) = star_rows_of (k + int j) 0 (star_ids (ls ! j'))"
      by (simp add: Suc add.assoc)
    moreover have "filter (\<lambda>s. cls_line_id s = k + int j) (star_rows_of k 0 (star_ids l)) = []"
      by (rule filter_star_rows_of_other) (simp add: Suc)
    ultimately show ?thesis
      by (simp add: stars_of_line_def Suc)
  qed
qed

lemma line_rows_nth:
  "j < length ls \<Longrightarrow>
     line_rows k ls ! j =
       \<lparr>cl_line_id = k + int j, cl_constellation = constellation (ls ! j),
        cl_line_number = line_number (ls ! j),
        cl_star_count = int (length (star_ids (ls ! j)))\<rparr>"
proof (induction ls arbitrary: k j)
  case Nil
  then show ?case by simp
next
  case (Cons l ls)
  show ?case
  proof (cases j)
    case 0
    then show ?thesis by simp
  next
    case (Suc j')
    with Cons.prems have "j' < length ls" by simp
    from Cons.IH [OF this, of "k + 1"] show ?thesis by (simp add: Suc add.assoc)
  qed
qed

lemma star_rows_of_sequence_index:
  "map cls_sequence_index (star_rows_of k i ss) = map int [Suc i..<Suc (i + length ss)]"
proof (induction ss arbitrary: i)
  case Nil
  then show ?case by simp
next
  case (Cons s ss)
  have "[Suc i..<Suc (i + length (s # ss))] = Suc i # [Suc (Suc i)..<Suc (Suc i + length ss)]"
    by (simp add: upt_rec)
  with Cons.IH [of "Suc i"] show ?case by simp
qed

lemma star_rows_of_bsc_number: "map cls_bsc_number (star_rows_of k i ss) = ss"
  by (induction ss arbitrary: i) simp_all

lemma import_sample_lines: "import_to_db empty_db sample_lines = (sample_db, None)"
  by code_simp

lemma import_overflow_lines: "import_to_db sample_db overflow_lines = (cleared_db, Some OverflowError)"
  by code_simp

lemma last_code_snoc:
  "last_code (rows @ [raw]) = (if abbr_of raw \<noteq> [] then abbr_of raw else last_code rows)"
  by (simp add: last_code_def)

lemma load_rows_append:
  "load_rows st (xs @ ys) =
     (case load_rows st xs of Inl e \<Rightarrow> Inl e | Inr st1 \<Rightarrow> load_rows st1 ys)"
  by (induction xs arbitrary: st) (simp_all split: sum.splits)

lemma load_row_body_current:
  assumes "load_row_body st raw = Inr st'"
  shows "current_constellation st' = current_constellation st"
  using assms by (cases rule: load_row_body_Inr) simp_all

lemma load_row_current:
  assumes "load_row st raw = Inr st'"
  shows "current_constellation st' =
           (if abbr_of raw \<noteq> [] then abbr_of raw else current_constellation st)"
proof (cases "row_skipped st raw")
  case True
  with assms show ?thesis by (simp add: load_row_eq row_skipped_def)
next
  case False
  with assms have "load_row_body (enter_row st raw) raw = Inr st'"
    by (simp add: load_row_eq)
  from load_row_body_current [OF this] show ?thesis by (simp add: enter_row_def)
qed

lemma load_rows_snoc_Inr:
  assumes "load_rows st (rows @ [raw]) = Inr st'"
  obtains st1 where "load_rows st rows = Inr st1" and "load_row st1 raw = Inr st'"
proof (cases "load_rows st rows")
  case (Inl e)
  with assms show ?thesis by (simp add: load_rows_append)
next
  case (Inr st1)
  with assms have "load_row st1 raw = Inr st'"
    by (simp add: load_rows_append split: sum.splits)
  with Inr that show ?thesis by blast
qed

lemma load_rows_current:
  "load_rows initial_state rows = Inr st \<Longrightarrow> current_constellation st = last_code rows"
proof (induction rows arbitrary: st rule: rev_induct)
  case Nil
  then show ?case by (auto simp add: initial_state_def last_code_def)
next
  case (snoc raw rows)
  from snoc.prems obtain st1 where pre: "load_rows initial_state rows = Inr st1"
    and step: "load_row st1 raw = Inr st"
    by (rule load_rows_snoc_Inr)
  from snoc.IH [OF pre] load_row_current [OF step] show ?case
    by (simp add: last_code_snoc)
qed

lemma load_rows_lines_prefix:
  "load_rows st rows = Inr st' \<Longrightarrow> \<exists>rest. lines st' = lines st @ rest"
proof (induction rows arbitrary: st)
  case Nil
  then show ?case by simp
next
  case (Cons raw rows)
  from Cons.prems obtain st1 where step: "load_row st raw = Inr st1"
    and rest: "load_rows st1 rows = Inr st'"
    by (cases "load_row st raw") simp_all
  from load_row_lines [OF step] obtain new where "lines st1 = lines st @ new" by auto
  moreover from Cons.IH [OF rest] obtain rest' where "lines st' = lines st1 @ rest'" by auto
  ultimately show ?case by simp
qed

lemma blank_cells_parse:
  "\<forall>column \<in> set columns. blank_cell (raw column) \<Longrightarrow> parse_star_ids raw columns = Inr []"
  by (induction columns) (simp_all add: parse_int_None_iff [THEN iffD2])

lemma load_row_counter:
  assumes "load_row st raw = Inr st'"
  shows "(lines st' = lines st \<and> (\<forall>c. counter_value st' c = counter_value st c)) \<or>
         (\<exists>l. lines st' = lines st @ [l] \<and> star_ids l \<noteq> [] \<and>
              (\<forall>c. counter_value st' c =
                     counter_value st c + (if c = constellation l then 1 else 0)))"
proof (cases "row_skipped st raw")
  case True
  with assms show ?thesis by (simp add: load_row_eq)
next
  case False
  with assms have body: "load_row_body (enter_row st raw) raw = Inr st'"
    by (simp add: load_row_eq)
  from body show ?thesis
  proof (cases rule: load_row_body_Inr)
    case skip
    then show ?thesis by simp
  next
    case (append sids n)
    let ?cur = "current_constellation (enter_row st raw)"
    let ?l = "\<lparr>constellation = ?cur, line_number = n + 1, star_ids = sids\<rparr>"
    from append(3) have n: "counter_value st ?cur = n"
      using counter_value_enter_row [of st raw ?cur] by (simp add: counter_value_def)
    have "counter_value st' c = counter_value st c + (if c = constellation ?l then 1 else 0)" for c
    proof (cases "c = ?cur")
      case True
      with append(4) n show ?thesis by (simp add: counter_value_def)
    next
      case False
      have "counter_value st' c = counter_value (enter_row st raw) c"
        using False append(4) by (simp add: counter_value_def)
      with False show ?thesis by simp
    qed
    moreover have "lines st' = lines st @ [?l]" using append(4) by simp
    moreover have "star_ids ?l \<noteq> []" using append(2) by simp
    ultimately show ?thesis by blast
  qed
qed

lemma load_row_blank_stars:
  assumes "load_row st raw = Inr st'" and "\<forall>column \<in> set STAR_COLUMNS. blank_cell (raw column)"
  shows "lines st' = lines st \<and> (\<forall>c. counter_value st' c = counter_value st c)"
proof (cases "row_skipped st raw")
  case True
  with assms show ?thesis by (simp add: load_row_eq)
next
  case False
  with assms have body: "load_row_body (enter_row st raw) raw = Inr st'"
    by (simp add: load_row_eq)
  from body show ?thesis
  proof (cases rule: load_row_body_Inr)
    case skip
    then show ?thesis by simp
  next
    case (append sids n)
    with blank_cells_parse [OF assms(2)] show ?thesis by simp
  qed
qed

lemma load_three_rows:
  "load (Reader [two_star_row, blank_row, second_row] None) =
     Inr [\<lparr>constellation = ''AND'', line_number = 1, star_ids = [1, - 2]\<rparr>,
          \<lparr>constellation = ''AND'', line_number = 2, star_ids = [3, 4]\<rparr>]"
  by code_simp

lemma blank_row_cells:
  "abbr_of blank_row = []" "parse_int (blank_row ''nr'') = Inr (Some 0)"
  "parse_star_ids blank_row STAR_COLUMNS = Inr []"
  by code_simp+

lemma load_row_blank_row: "load_row after_first_row blank_row = Inr after_first_row"
  by (simp add: load_row_def load_row_body_def blank_row_cells after_first_row_def)

lemma blank_row_blank: "\<forall>column \<in> set STAR_COLUMNS. blank_cell (blank_row column)"
  by code_simp

lemma load_Some_Inr_iff:
  "load (Reader rows None) = Inr lns \<longleftrightarrow> (\<exists>st. load_rows initial_state rows = Inr st \<and> lns = lines st)"
  by (cases "load_rows initial_state rows") (auto simp add: load_def)

lemma load_rows_Cons_Inr:
  assumes "load_rows st (raw # rows) = Inr st'"
  obtains st1 where "load_row st raw = Inr st1" and "load_rows st1 rows = Inr st'"
  using assms by (cases "load_row st raw") simp_all

lemma load_rows_append_Inr:
  assumes "load_rows st (xs @ ys) = Inr st'"
  obtains st1 where "load_rows st xs = Inr st1" and "load_rows st1 ys = Inr st'"
  using assms by (cases "load_rows st xs") (simp_all add: load_rows_append)

lemma second_row_cells:
  "abbr_of second_row = []" "last_code [two_star_row] = ''AND''"
  "parse_star_ids second_row STAR_COLUMNS = Inr [3, 4]"
  by code_simp+

lemma load_two_rows:
  "load (Reader ([two_star_row] @ second_row # []) None) =
     Inr [\<lparr>constellation = ''AND'', line_number = 1, star_ids = [1, - 2]\<rparr>,
          \<lparr>constellation = ''AND'', line_number = 2, star_ids = [3, 4]\<rparr>]"
  by code_simp

lemma load_rows_first_row: "load_rows initial_state [two_star_row] = Inr after_first_row"
proof -
  have "abbr_of two_star_row = ''AND''" "parse_int (two_star_row ''nr'') = Inr (Some 2)"
    "parse_star_ids two_star_row STAR_COLUMNS = Inr [1, - 2]"
    by code_simp+
  then show ?thesis
    by (simp add: load_row_def load_row_body_def initial_state_def after_first_row_def Let_def)
qed

lemma parse_star_ids_isl:
  "isl (parse_star_ids raw columns) \<longleftrightarrow> (\<exists>column \<in> set columns. invalid_cell (raw column))"
proof (induction columns)
  case Nil
  then show ?case by simp
next
  case (Cons column columns)
  show ?case
  proof (cases "parse_int (raw column)")
    case (Inl e)
    then show ?thesis by (simp add: invalid_cell_def)
  next
    case (Inr sid)
    then have "isl (parse_star_ids raw (column # columns)) = isl (parse_star_ids raw columns)"
      by (cases "parse_star_ids raw columns") simp_all
    with Cons.IH Inr show ?thesis by (simp add: invalid_cell_def)
  qed
qed

lemma load_row_body_isl:
  assumes "per_constellation_counter st (current_constellation st) \<noteq> None"
  shows "isl (load_row_body st raw) \<longleftrightarrow> row_raises raw"
proof (cases "parse_int (raw ''nr'')")
  case (Inl e)
  then show ?thesis
    by (simp add: load_row_body_def row_raises_def row_invalid_literal_def invalid_cell_def)
next
  case (Inr star_total)
  note total = this
  show ?thesis
  proof (cases "parse_star_ids raw STAR_COLUMNS")
    case (Inl e)
    then have "isl (parse_star_ids raw STAR_COLUMNS)" by simp
    then have "row_invalid_literal raw"
      by (simp add: parse_star_ids_isl row_invalid_literal_def list_ex_iff)
    with total Inl show ?thesis by (simp add: load_row_body_def row_raises_def)
  next
    case (Inr sids)
    then have "\<not> isl (parse_star_ids raw STAR_COLUMNS)" by simp
    with total have valid: "\<not> row_invalid_literal raw"
      by (simp add: parse_star_ids_isl row_invalid_literal_def list_ex_iff invalid_cell_def)
    have len: "length sids = nonblank_star_cells raw"
      using parse_star_ids_length [OF Inr] by (simp add: nonblank_star_cells_def)
    show ?thesis
    proof (cases star_total)
      case None
      with total Inr valid assms show ?thesis
        by (auto simp add: load_row_body_def row_raises_def declared_count_differs_def)
    next
      case (Some t)
      with total Inr valid assms len show ?thesis
        by (auto simp add: load_row_body_def row_raises_def declared_count_differs_def)
    qed
  qed
qed

lemma load_row_isl:
  assumes "current_counted st"
  shows "isl (load_row st raw) \<longleftrightarrow> \<not> row_skipped st raw \<and> row_raises raw"
proof (cases "row_skipped st raw")
  case True
  then show ?thesis by (simp add: load_row_eq)
next
  case False
  from assms have "current_counted (enter_row st raw)" by (rule current_counted_enter_row)
  with current_enter_row [OF False]
  have "per_constellation_counter (enter_row st raw) (current_constellation (enter_row st raw)) \<noteq> None"
    by (simp add: current_counted_def)
  from load_row_body_isl [OF this] False show ?thesis by (simp add: load_row_eq)
qed

lemma load_row_counted:
  assumes "load_row st raw = Inr st'" and "current_counted st"
  shows "current_counted st'"
proof (cases "row_skipped st raw")
  case True
  with assms show ?thesis by (simp add: load_row_eq)
next
  case False
  with assms(1) have "load_row_body (enter_row st raw) raw = Inr st'" by (simp add: load_row_eq)
  then show ?thesis using current_counted_enter_row [OF assms(2)] by (rule load_row_body_counted)
qed

lemma load_rows_isl:
  "current_counted st \<Longrightarrow>
     isl (load_rows st rows) \<longleftrightarrow>
       list_ex row_raises (if current_constellation st = [] then processed_rows rows else rows)"
proof (induction rows arbitrary: st)
  case Nil
  then show ?case by (simp add: processed_rows_def)
next
  case (Cons raw rows)
  show ?case
  proof (cases "load_row st raw")
    case (Inl e)
    then have "isl (load_row st raw)" by simp
    with load_row_isl [OF Cons.prems] have "\<not> row_skipped st raw" "row_raises raw" by simp_all
    with Inl show ?thesis by (auto simp add: row_skipped_def processed_rows_def)
  next
    case (Inr st1)
    then have "\<not> isl (load_row st raw)" by simp
    with load_row_isl [OF Cons.prems] have quiet: "row_skipped st raw \<or> \<not> row_raises raw" by simp
    have counted: "current_counted st1" using Inr Cons.prems by (rule load_row_counted)
    have cur: "current_constellation st1 =
                 (if abbr_of raw \<noteq> [] then abbr_of raw else current_constellation st)"
      using Inr by (rule load_row_current)
    have rest: "isl (load_rows st (raw # rows)) = isl (load_rows st1 rows)" using Inr by simp
    show ?thesis
    proof (cases "row_skipped st raw")
      case True
      with cur have "current_constellation st1 = []" "current_constellation st = []" "abbr_of raw = []"
        by (simp_all add: row_skipped_def)
      with Cons.IH [OF counted] rest show ?thesis by (simp add: processed_rows_def)
    next
      case False
      with quiet have nr: "\<not> row_raises raw" by simp
      from False cur have cur1: "current_constellation st1 \<noteq> []" by (auto simp add: row_skipped_def)
      from False have "(if current_constellation st = [] then processed_rows (raw # rows) else raw # rows)
                       = raw # rows"
        by (auto simp add: row_skipped_def processed_rows_def)
      with Cons.IH [OF counted] rest cur1 nr show ?thesis by simp
    qed
  qed
qed

lemma load_isl:
  "isl (load csv) \<longleftrightarrow>
     (case csv of
        Missing \<Rightarrow> True
      | Unopenable e \<Rightarrow> True
      | Reader rows ending \<Rightarrow> list_ex row_raises (processed_rows rows) \<or> ending \<noteq> None)"
proof (cases csv)
  case Missing
  then show ?thesis by (simp add: load_def)
next
  case (Unopenable e)
  then show ?thesis by (simp add: load_def)
next
  case (Reader rows ending)
  have "current_counted initial_state" by (simp add: current_counted_def initial_state_def)
  from load_rows_isl [OF this, of rows]
  have rows: "isl (load_rows initial_state rows) \<longleftrightarrow> list_ex row_raises (processed_rows rows)"
    by (simp add: initial_state_def)
  have "isl (load (Reader rows ending)) \<longleftrightarrow> isl (load_rows initial_state rows) \<or> ending \<noteq> None"
    by (cases "load_rows initial_state rows"; cases ending) (simp_all add: load_def)
  with rows Reader show ?thesis by simp
qed

lemma zero_count_blank_row_quiet:
  assumes "parse_int (raw ''nr'') = Inr (Some 0)"
    and "\<forall>column \<in> set STAR_COLUMNS. blank_cell (raw column)"
  shows "\<not> row_raises raw"
proof -
  from assms(2) have "\<forall>column \<in> set STAR_COLUMNS. \<not> invalid_cell (raw column)"
    by (simp add: invalid_cell_def parse_int_None_iff [THEN iffD2])
  moreover from assms(2) have "nonblank_star_cells raw = 0"
    by (simp add: nonblank_star_cells_def)
  ultimately show ?thesis using assms(1)
    by (simp add: row_raises_def row_invalid_literal_def declared_count_differs_def
        invalid_cell_def list_ex_iff)
qed

lemma load_mismatch:
  "load (Reader [two_star_row, blank_row, mismatch_row] None) = Inl (ValueError_count_mismatch ''AND'' 5 3)"
  by code_simp

lemma parse_int_missing: "parse_int None = Inr None"
  by (simp add: parse_int_def)

lemma parse_int_empty: "parse_int (Some []) = Inr None"
  by (simp add: parse_int_def strip_def)

lemma parse_int_without_columns:
  "parse_int (without_columns M raw column) = parse_int (with_blank_columns M raw column)"
  by (simp add: without_columns_def with_blank_columns_def parse_int_missing parse_int_empty)

lemma abbr_of_without_columns: "abbr_of (without_columns M raw) = abbr_of (with_blank_columns M raw)"
  by (simp add: abbr_of_def without_columns_def with_blank_columns_def strip_def)

lemma parse_star_ids_cong:
  assumes "\<And>column. parse_int (raw column) = parse_int (raw' column)"
  shows "parse_star_ids raw columns = parse_star_ids raw' columns"
proof (induction columns)
  case Nil
  show ?case by simp
next
  case (Cons column columns)
  have "parse_int (raw column) = parse_int (raw' column)" by (rule assms)
  with Cons.IH show ?case by (simp only: parse_star_ids.simps)
qed

lemma load_row_cong:
  assumes "\<And>column. parse_int (raw column) = parse_int (raw' column)"
    and "abbr_of raw = abbr_of raw'"
  shows "load_row st raw = load_row st raw'"
proof -
  have "parse_star_ids raw STAR_COLUMNS = parse_star_ids raw' STAR_COLUMNS"
    using assms(1) by (rule parse_star_ids_cong)
  moreover have "parse_int (raw ''nr'') = parse_int (raw' ''nr'')" by (rule assms(1))
  ultimately have "load_row_body s raw = load_row_body s raw'" for s
    by (simp only: load_row_body_def)
  moreover have "enter_row st raw = enter_row st raw'"
    by (simp only: enter_row_def assms(2))
  moreover have "row_skipped st raw = row_skipped st raw'"
    by (simp only: row_skipped_def assms(2))
  ultimately show ?thesis
    by (simp only: load_row_eq)
qed

lemma load_rows_cong:
  assumes "\<And>raw column. parse_int (f raw column) = parse_int (g raw column)"
    and "\<And>raw. abbr_of (f raw) = abbr_of (g raw)"
  shows "load_rows st (map f rows) = load_rows st (map g rows)"
proof (induction rows arbitrary: st)
  case Nil
  show ?case by simp
next
  case (Cons raw rows)
  have "load_row st (f raw) = load_row st (g raw)"
    by (rule load_row_cong) (simp_all add: assms)
  with Cons.IH show ?case by (simp split: sum.splits)
qed

lemma load_row_no_cells:
  assumes "raw ''nr'' = None" and "list_all (\<lambda>column. raw column = None) STAR_COLUMNS"
  shows "\<exists>st'. load_row st raw = Inr st' \<and> lines st' = lines st"
proof -
  from assms(2) have "\<forall>column \<in> set STAR_COLUMNS. blank_cell (raw column)"
    by (simp add: list_all_iff blank_cell_def)
  then have "parse_star_ids raw STAR_COLUMNS = Inr []" by (rule blank_cells_parse)
  with assms(1) have "load_row_body s raw = Inr s" for s
    by (simp add: load_row_body_def parse_int_missing)
  then show ?thesis by (simp add: load_row_eq)
qed

lemma load_rows_no_cells:
  "list_all (\<lambda>raw. raw ''nr'' = None \<and> list_all (\<lambda>column. raw column = None) STAR_COLUMNS) rows \<Longrightarrow>
     \<exists>st'. load_rows st rows = Inr st' \<and> lines st' = lines st"
proof (induction rows arbitrary: st)
  case Nil
  then show ?case by simp
next
  case (Cons raw rows)
  then have "raw ''nr'' = None" and "list_all (\<lambda>column. raw column = None) STAR_COLUMNS"
    and rest: "list_all (\<lambda>raw. raw ''nr'' = None \<and> list_all (\<lambda>column. raw column = None) STAR_COLUMNS) rows"
    by simp_all
  from load_row_no_cells [OF this(1,2)] obtain st1 where "load_row st raw = Inr st1"
    and "lines st1 = lines st" by blast
  with Cons.IH [OF rest, of st1] show ?case by simp
qed

lemma abr_only_rows_no_cells:
  "list_all (\<lambda>raw. raw ''nr'' = None \<and> list_all (\<lambda>column. raw column = None) STAR_COLUMNS)
     [abr_only_row, abr_only_row]"
  by code_simp




















lemma is_digit_not_sign:
  "is_digit c \<Longrightarrow> c \<noteq> CHR ''_'' \<and> c \<noteq> CHR ''+'' \<and> c \<noteq> CHR ''-''"
  by (auto simp add: is_digit_def)

lemma underscores_ok_digits:
  "\<forall>c \<in> set ds. is_digit c \<Longrightarrow> ds \<noteq> [] \<or> \<not> b \<Longrightarrow> underscores_ok b ds"
proof (induction ds arbitrary: b)
  case Nil
  then show ?case by simp
next
  case (Cons c ds)
  then have "c \<noteq> CHR ''_''" by (simp add: is_digit_not_sign)
  moreover from Cons have "underscores_ok False ds" by simp
  ultimately show ?case by simp
qed

lemma py_int_too_long:
  assumes "\<forall>c \<in> set ds. is_digit c" and "int_max_str_digits < length ds"
  shows "py_int ds = Inl (ValueError_digit_limit (length ds))"
proof -
  from assms(2) obtain c cs where ds: "ds = c # cs" by (cases ds) simp_all
  with assms(1) have c: "c \<noteq> CHR ''_''" "c \<noteq> CHR ''+''" "c \<noteq> CHR ''-''"
    by (simp_all add: is_digit_not_sign)
  have run: "takeWhile literal_char ds = ds"
    using assms(1) by (simp add: literal_char_def)
  have digits: "filter is_digit ds = ds" using assms(1) by simp
  have ok: "underscores_ok False ds" using assms(1) by (simp add: underscores_ok_digits)
  have body: "(case ds of c # cs \<Rightarrow> if c = CHR ''+'' \<or> c = CHR ''-'' then cs else ds | [] \<Rightarrow> ds) = ds"
    using c by (simp add: ds)
  have lead: "\<not> (case ds of c # cs \<Rightarrow> c = CHR ''_'' | [] \<Rightarrow> False)"
    using c by (simp add: ds)
  show ?thesis
    unfolding py_int_def Let_def body run digits
    using lead ok assms(2) by simp
qed

lemma py_int_samples:
  "py_int ''+1_0'' = Inr 10" "py_int ''007'' = Inr 7" "py_int ''-0'' = Inr 0"
  "py_int ''1__0'' = Inl (ValueError_invalid_literal ''1__0'')"
  "py_int ''_1'' = Inl (ValueError_invalid_literal ''_1'')"
  "py_int ''1_'' = Inl (ValueError_invalid_literal ''1_'')"
  "py_int ''-'' = Inl (ValueError_invalid_literal ''-'')"
  "py_int ''1 2'' = Inl (ValueError_invalid_literal ''1 2'')"
  by code_simp+

lemma load_reader_fails:
  "load (Reader [two_star_row] (Some UnicodeDecodeError)) = Inl UnicodeDecodeError"
  "load (Reader [] (Some csv_Error)) = Inl csv_Error"
  "load (Unopenable IsADirectoryError) = Inl IsADirectoryError"
  "load Missing = Inl FileNotFoundError"
  by code_simp+


section \<open>The claims\<close>

text \<open>
  C5 (as amended). Every record produced by \<open>load\<close> has between 1 and 31 star ids: the
  sequence is never empty and never longer than the 31 star columns. A record with exactly
  one star id can be produced.
\<close>

theorem load_star_ids_between_1_and_31:
  assumes "load csv = Inr lns" and "l \<in> set lns"
  shows "1 \<le> length (star_ids l) \<and> length (star_ids l) \<le> 31"
proof -
  from assms(1) obtain rows st where "load_rows initial_state rows = Inr st" and "lns = lines st"
    by (rule load_Some_Inr)
  moreover have "\<forall>l \<in> set (lines initial_state). star_ids l \<noteq> [] \<and> length (star_ids l) \<le> 31"
    by (simp add: initial_state_def)
  ultimately have "\<forall>l \<in> set lns. star_ids l \<noteq> [] \<and> length (star_ids l) \<le> 31"
    using load_rows_star_ids_bounds by blast
  with assms(2) show ?thesis by (cases "star_ids l") auto
qed

theorem load_star_ids_between_1_and_31_witness:
  "load (Reader [two_star_row] None) =
     Inr [\<lparr>constellation = ''AND'', line_number = 1, star_ids = [1, - 2]\<rparr>] \<and>
   1 \<le> length (star_ids \<lparr>constellation = ''AND'', line_number = 1, star_ids = [1, - 2]\<rparr>) \<and>
   length (star_ids \<lparr>constellation = ''AND'', line_number = 1, star_ids = [1, - 2]\<rparr>) \<le> 31"
  using load_star_ids_between_1_and_31 [OF load_two_star_row, of
      "\<lparr>constellation = ''AND'', line_number = 1, star_ids = [1, - 2]\<rparr>"]
    load_two_star_row
  by simp

text \<open>
  C5 as stated fails: a row with a single star id and declared count 1 yields a record
  whose \<open>star_ids\<close> has exactly one entry.
\<close>

theorem load_single_star_row:
  "load (Reader [single_star_row] None) =
     Inr [\<lparr>constellation = ''AND'', line_number = 1, star_ids = [5]\<rparr>]"
  by code_simp

text \<open>
  C7. After a successful import the table \<^verbatim>\<open>constellation_line\<close> holds as many rows as
  there are records, and \<^verbatim>\<open>constellation_line_star\<close> as many rows as the records have
  star ids in total.
\<close>

theorem persisted_row_counts:
  assumes "import_to_db db lns = (db', None)"
  shows "\<exists>rows srows. constellation_line db' = Some rows \<and>
           constellation_line_star db' = Some srows \<and>
           length rows = length lns \<and>
           length srows = (\<Sum>l\<leftarrow>lns. length (star_ids l))"
proof -
  from assms have "db' = stored_after lns" by (rule import_to_db_success)
  then show ?thesis
    by (simp add: stored_after_def length_line_rows length_star_rows)
qed

theorem persisted_row_counts_witness:
  "import_to_db empty_db sample_lines = (sample_db, None) \<and>
   (\<exists>rows srows. constellation_line sample_db = Some rows \<and>
      constellation_line_star sample_db = Some srows \<and>
      length rows = length sample_lines \<and>
      length srows = (\<Sum>l\<leftarrow>sample_lines. length (star_ids l)))"
  using persisted_row_counts [OF import_sample_lines] import_sample_lines
  by simp

text \<open>
  C2. Running the whole import a second time, on the database the first run left, gives
  the same stored database and the same outcome as the first run: nothing accumulates,
  and the generated line ids are the same.
\<close>

theorem main_twice:
  "main csv (fst (main csv db)) = main csv db"
proof (cases "load csv")
  case (Inl e)
  then show ?thesis by (simp add: main_def)
next
  case (Inr lns)
  have "import_to_db (fst (import_to_db db lns)) lns = import_to_db db lns"
    by (simp add: import_to_db_def create_schema_def)
  with Inr show ?thesis by (simp add: main_def)
qed

text \<open>
  C1 (as amended). When an insert raises, no row of the failed run is stored, but the
  tables are not what they were before the run: the schema script had already dropped and
  recreated them, so both are left existing and empty.
\<close>

theorem failed_import_leaves_empty_tables:
  assumes "import_to_db db lns = (db', Some e)"
  shows "constellation_line db' = Some [] \<and> constellation_line_star db' = Some []"
proof -
  from assms have "db' = stored_after []" by (rule import_to_db_failure)
  then show ?thesis by (simp add: stored_after_def)
qed

theorem failed_import_leaves_empty_tables_witness:
  "import_to_db sample_db overflow_lines = (cleared_db, Some OverflowError) \<and>
   constellation_line cleared_db = Some [] \<and> constellation_line_star cleared_db = Some []"
  using failed_import_leaves_empty_tables [OF import_overflow_lines] import_overflow_lines
  by simp

text \<open>
  C1 as stated fails: the database holds two lines and five stars; importing a file whose
  only star id is \<open>2 ^ 63\<close> raises \<^verbatim>\<open>OverflowError\<close> at the insert of the star, and the
  stored tables are then empty.
\<close>

theorem failed_import_loses_previous_rows:
  "main (Reader [overflow_row] None) sample_db = (cleared_db, Some OverflowError) \<and>
   sample_db \<noteq> cleared_db"
  by code_simp

text \<open>
  C8. After a successful import, the row stored for the \<open>j\<close>-th record has a
  \<^verbatim>\<open>star_count\<close> equal to the number of star rows that reference its line id; those rows
  carry the sequence indexes 1 up to \<^verbatim>\<open>star_count\<close>, and their \<^verbatim>\<open>bsc_number\<close>s, in that
  order, are the record's star ids.
\<close>

theorem stored_stars_match_records:
  assumes "import_to_db db lns = (db', None)"
  shows "\<exists>rows srows. constellation_line db' = Some rows \<and>
           constellation_line_star db' = Some srows \<and> length rows = length lns \<and>
           (\<forall>j < length lns.
              cl_star_count (rows ! j) = int (length (stars_of_line srows (cl_line_id (rows ! j)))) \<and>
              map cls_sequence_index (stars_of_line srows (cl_line_id (rows ! j))) =
                map int [1..<Suc (nat (cl_star_count (rows ! j)))] \<and>
              map cls_bsc_number (stars_of_line srows (cl_line_id (rows ! j))) = star_ids (lns ! j))"
proof -
  from assms have db': "db' = stored_after lns" by (rule import_to_db_success)
  have "cl_star_count (line_rows 1 lns ! j) =
          int (length (stars_of_line (star_rows 1 lns) (cl_line_id (line_rows 1 lns ! j)))) \<and>
        map cls_sequence_index (stars_of_line (star_rows 1 lns) (cl_line_id (line_rows 1 lns ! j))) =
          map int [1..<Suc (nat (cl_star_count (line_rows 1 lns ! j)))] \<and>
        map cls_bsc_number (stars_of_line (star_rows 1 lns) (cl_line_id (line_rows 1 lns ! j))) =
          star_ids (lns ! j)"
    if "j < length lns" for j
    using that
    by (simp add: line_rows_nth stars_of_line_star_rows length_star_rows_of
        star_rows_of_sequence_index star_rows_of_bsc_number)
  then show ?thesis
    by (simp add: db' stored_after_def length_line_rows)
qed

theorem stored_stars_match_records_witness:
  "import_to_db empty_db sample_lines = (sample_db, None) \<and>
   (\<exists>rows srows. constellation_line sample_db = Some rows \<and>
           constellation_line_star sample_db = Some srows \<and> length rows = length sample_lines \<and>
           (\<forall>j < length sample_lines.
              cl_star_count (rows ! j) = int (length (stars_of_line srows (cl_line_id (rows ! j)))) \<and>
              map cls_sequence_index (stars_of_line srows (cl_line_id (rows ! j))) =
                map int [1..<Suc (nat (cl_star_count (rows ! j)))] \<and>
              map cls_bsc_number (stars_of_line srows (cl_line_id (rows ! j))) = star_ids (sample_lines ! j)))"
  using stored_stars_match_records [OF import_sample_lines] import_sample_lines
  by simp

text \<open>
  C4. For every constellation code, the line numbers of its records in the output of
  \<open>load\<close>, in output order, are 1, 2, ..., k. One iteration of the loop either leaves the
  records and every counter as they were, or appends one record with at least one star id
  and adds one to the counter of that record's constellation only. A row whose star
  columns are all blank appends nothing and changes no counter (a counter not yet set
  reads as 0).
\<close>

theorem line_numbers_dense:
  "(load csv = Inr lns \<longrightarrow>
      map line_number (lines_of c lns) = map int [1..<Suc (length (lines_of c lns))]) \<and>
   (load_row st raw = Inr st' \<longrightarrow>
      (lines st' = lines st \<and> (\<forall>c. counter_value st' c = counter_value st c)) \<or>
      (\<exists>l. lines st' = lines st @ [l] \<and> star_ids l \<noteq> [] \<and>
           (\<forall>c. counter_value st' c =
                  counter_value st c + (if c = constellation l then 1 else 0)))) \<and>
   (load_row st raw = Inr st' \<and> list_all (\<lambda>column. blank_cell (raw column)) STAR_COLUMNS \<longrightarrow>
      lines st' = lines st \<and> (\<forall>c. counter_value st' c = counter_value st c))"
proof (intro conjI impI)
  assume "load csv = Inr lns"
  from load_dense [OF this]
  show "map line_number (lines_of c lns) = map int [1..<Suc (length (lines_of c lns))]"
    by (simp add: dense_def)
next
  assume "load_row st raw = Inr st'"
  then show "(lines st' = lines st \<and> (\<forall>c. counter_value st' c = counter_value st c)) \<or>
      (\<exists>l. lines st' = lines st @ [l] \<and> star_ids l \<noteq> [] \<and>
           (\<forall>c. counter_value st' c =
                  counter_value st c + (if c = constellation l then 1 else 0)))"
    by (rule load_row_counter)
next
  assume "load_row st raw = Inr st' \<and> list_all (\<lambda>column. blank_cell (raw column)) STAR_COLUMNS"
  then have "lines st' = lines st \<and> (\<forall>c. counter_value st' c = counter_value st c)"
    using load_row_blank_stars [of st raw st'] by (simp add: list_all_iff)
  then show "lines st' = lines st" and "\<forall>c. counter_value st' c = counter_value st c"
    by simp_all
qed

theorem line_numbers_dense_witness:
  "load (Reader [two_star_row, blank_row, second_row] None) =
     Inr [\<lparr>constellation = ''AND'', line_number = 1, star_ids = [1, - 2]\<rparr>,
          \<lparr>constellation = ''AND'', line_number = 2, star_ids = [3, 4]\<rparr>] \<and>
   map line_number (lines_of ''AND''
     [\<lparr>constellation = ''AND'', line_number = 1, star_ids = [1, - 2]\<rparr>,
      \<lparr>constellation = ''AND'', line_number = 2, star_ids = [3, 4]\<rparr>]) = [1, 2] \<and>
   load_row after_first_row blank_row = Inr after_first_row \<and>
   list_all (\<lambda>column. blank_cell (blank_row column)) STAR_COLUMNS \<and>
   lines after_first_row = lines after_first_row \<and>
   (\<forall>c. counter_value after_first_row c = counter_value after_first_row c)"
  using line_numbers_dense [of "Reader [two_star_row, blank_row, second_row] None"
      "[\<lparr>constellation = ''AND'', line_number = 1, star_ids = [1, - 2]\<rparr>,
        \<lparr>constellation = ''AND'', line_number = 2, star_ids = [3, 4]\<rparr>]" "''AND''"
      after_first_row blank_row after_first_row]
    load_three_rows load_row_blank_row blank_row_blank
  by (simp add: lines_of_def list_all_iff)

text \<open>
  C6. After any rows the current constellation is the most recently seen non-blank code.
  A row with a blank abbreviation that follows at least one row with a non-blank one
  keeps the records parsed so far, and the record it produces, if any, carries the most
  recently seen non-blank code.
\<close>

theorem blank_abbreviation_inherits:
  "(load_rows initial_state rows = Inr st \<longrightarrow> current_constellation st = last_code rows) \<and>
   (load (Reader (pre @ raw # post) None) = Inr lns \<and> abbr_of raw = [] \<and> last_code pre \<noteq> [] \<longrightarrow>
      (\<exists>lns1 sids rest.
         load (Reader pre None) = Inr lns1 \<and> parse_star_ids raw STAR_COLUMNS = Inr sids \<and>
         lns = lns1 @
           (if sids = [] then []
            else [\<lparr>constellation = last_code pre,
                    line_number = int (length (lines_of (last_code pre) lns1)) + 1,
                    star_ids = sids\<rparr>]) @ rest))"
proof (intro conjI impI)
  assume "load_rows initial_state rows = Inr st"
  then show "current_constellation st = last_code rows" by (rule load_rows_current)
next
  assume "load (Reader (pre @ raw # post) None) = Inr lns \<and> abbr_of raw = [] \<and> last_code pre \<noteq> []"
  then have ld: "load (Reader (pre @ raw # post) None) = Inr lns" and blank: "abbr_of raw = []"
    and seen: "last_code pre \<noteq> []" by simp_all
  from ld obtain st where all: "load_rows initial_state (pre @ raw # post) = Inr st"
    and lns: "lns = lines st" by (auto simp: load_Some_Inr_iff)
  from all obtain st1 where pre: "load_rows initial_state pre = Inr st1"
    and tail: "load_rows st1 (raw # post) = Inr st" by (rule load_rows_append_Inr)
  from tail obtain st2 where step: "load_row st1 raw = Inr st2"
    and post: "load_rows st2 post = Inr st" by (rule load_rows_Cons_Inr)
  have cur: "current_constellation st1 = last_code pre" using pre by (rule load_rows_current)
  have inv: "load_invariant st1" using pre load_invariant_initial by (rule load_rows_invariant)
  have enter: "enter_row st1 raw = st1" using blank by (simp add: enter_row_def)
  have "\<not> row_skipped st1 raw" using cur seen by (simp add: row_skipped_def)
  with step enter have body: "load_row_body st1 raw = Inr st2" by (simp add: load_row_eq)
  from load_rows_lines_prefix [OF post] obtain rest where rest: "lines st = lines st2 @ rest" ..
  have ld1: "load (Reader pre None) = Inr (lines st1)" using pre by (simp add: load_Some_Inr_iff)
  from body show "\<exists>lns1 sids rest.
         load (Reader pre None) = Inr lns1 \<and> parse_star_ids raw STAR_COLUMNS = Inr sids \<and>
         lns = lns1 @
           (if sids = [] then []
            else [\<lparr>constellation = last_code pre,
                    line_number = int (length (lines_of (last_code pre) lns1)) + 1,
                    star_ids = sids\<rparr>]) @ rest"
  proof (cases rule: load_row_body_Inr)
    case skip
    with ld1 rest lns show ?thesis by auto
  next
    case (append sids n)
    from inv have "counter_value st1 (last_code pre) = int (length (lines_of (last_code pre) (lines st1)))"
      by (simp add: load_invariant_def counter_agrees_def)
    with append(3) cur have n: "n = int (length (lines_of (last_code pre) (lines st1)))"
      by (simp add: counter_value_def)
    have "lns = lines st1 @ [\<lparr>constellation = last_code pre,
                    line_number = int (length (lines_of (last_code pre) (lines st1))) + 1,
                    star_ids = sids\<rparr>] @ rest"
      using append(4) rest lns cur n by simp
    with ld1 append(1,2) show ?thesis by auto
  qed
qed

theorem blank_abbreviation_inherits_witness:
  "load_rows initial_state [two_star_row] = Inr after_first_row \<and>
   current_constellation after_first_row = last_code [two_star_row] \<and>
   load (Reader ([two_star_row] @ second_row # []) None) =
     Inr [\<lparr>constellation = ''AND'', line_number = 1, star_ids = [1, - 2]\<rparr>,
          \<lparr>constellation = ''AND'', line_number = 2, star_ids = [3, 4]\<rparr>] \<and>
   abbr_of second_row = [] \<and> last_code [two_star_row] \<noteq> [] \<and>
   (\<exists>lns1 sids rest.
         load (Reader [two_star_row] None) = Inr lns1 \<and>
         parse_star_ids second_row STAR_COLUMNS = Inr sids \<and>
         [\<lparr>constellation = ''AND'', line_number = 1, star_ids = [1, - 2]\<rparr>,
          \<lparr>constellation = ''AND'', line_number = 2, star_ids = [3, 4]\<rparr>] = lns1 @
           (if sids = [] then []
            else [\<lparr>constellation = last_code [two_star_row],
                    line_number = int (length (lines_of (last_code [two_star_row]) lns1)) + 1,
                    star_ids = sids\<rparr>]) @ rest)"
  using blank_abbreviation_inherits [of "[two_star_row]" after_first_row "[two_star_row]"
      second_row "[]"
      "[\<lparr>constellation = ''AND'', line_number = 1, star_ids = [1, - 2]\<rparr>,
        \<lparr>constellation = ''AND'', line_number = 2, star_ids = [3, 4]\<rparr>]"]
    load_rows_first_row load_two_rows second_row_cells
  by simp

text \<open>
  C3 (as amended). \<open>load\<close> raises exactly when the file is missing, the existence check
  or \<^verbatim>\<open>open\<close> raises, the reader raises while the file is read, or some row, processed after
  a current constellation has been established, either holds a non-blank cell (declared
  count or star id) that \<^verbatim>\<open>int\<close> refuses (not an integer literal, or more digits than the
  interpreter converts), or declares a count that differs from the number of its non-blank
  star cells. A row declaring 0 with every star cell blank does not raise, and a run that
  raises returns no record list.
\<close>

theorem load_raises_iff:
  "(isl (load csv) \<longleftrightarrow>
      (case csv of
         Missing \<Rightarrow> True
       | Unopenable e \<Rightarrow> True
       | Reader rows ending \<Rightarrow> list_ex row_raises (processed_rows rows) \<or> ending \<noteq> None)) \<and>
   (parse_int (raw ''nr'') = Inr (Some 0) \<and>
      list_all (\<lambda>column. blank_cell (raw column)) STAR_COLUMNS \<longrightarrow> \<not> row_raises raw) \<and>
   (isl (load csv) \<longrightarrow> (\<forall>lns. load csv \<noteq> Inr lns))"
proof (intro conjI impI)
  show "isl (load csv) \<longleftrightarrow>
      (case csv of
         Missing \<Rightarrow> True
       | Unopenable e \<Rightarrow> True
       | Reader rows ending \<Rightarrow> list_ex row_raises (processed_rows rows) \<or> ending \<noteq> None)"
    by (rule load_isl)
next
  assume "parse_int (raw ''nr'') = Inr (Some 0) \<and>
      list_all (\<lambda>column. blank_cell (raw column)) STAR_COLUMNS"
  then show "\<not> row_raises raw"
    using zero_count_blank_row_quiet [of raw] by (simp add: list_all_iff)
next
  assume "isl (load csv)"
  then show "\<forall>lns. load csv \<noteq> Inr lns" by auto
qed

theorem load_raises_iff_witness:
  "load (Reader [two_star_row, blank_row, mismatch_row] None) =
     Inl (ValueError_count_mismatch ''AND'' 5 3) \<and>
   list_ex row_raises (processed_rows [two_star_row, blank_row, mismatch_row]) \<and>
   parse_int (blank_row ''nr'') = Inr (Some 0) \<and>
   list_all (\<lambda>column. blank_cell (blank_row column)) STAR_COLUMNS \<and>
   \<not> row_raises blank_row \<and>
   (\<forall>lns. load (Reader [two_star_row, blank_row, mismatch_row] None) \<noteq> Inr lns)"
  using load_raises_iff [of "Reader [two_star_row, blank_row, mismatch_row] None" blank_row]
    load_mismatch blank_row_cells(2) blank_row_blank
  by (simp add: list_all_iff)

text \<open>
  C3 as stated fails: a row whose only star cell holds \<^verbatim>\<open>x\<close> makes \<open>load\<close> raise, although
  no processed row declares a count that differs from its number of non-blank star cells
  (the row declares none).
\<close>

theorem load_raises_without_mismatch:
  "load (Reader [invalid_literal_row] None) = Inl (ValueError_invalid_literal ''x'') \<and>
   \<not> list_ex declared_count_differs (processed_rows [invalid_literal_row])"
  by code_simp

text \<open>
  C9. A column the header lacks reads exactly like a column whose cells are blank:
  \<open>load\<close> gives the same result (the same records or the same error), and \<^verbatim>\<open>_parse_int\<close> of a missing cell is "absent", not an
  error. When the declared-count column and every star column are missing, \<open>load\<close> cannot
  fail: it returns the empty list.
\<close>

theorem missing_columns_read_as_blank:
  "load (Reader (map (without_columns M) rows) ending) =
     load (Reader (map (with_blank_columns M) rows) ending) \<and>
   parse_int None = Inr None \<and>
   (list_all (\<lambda>raw. raw ''nr'' = None \<and> list_all (\<lambda>column. raw column = None) STAR_COLUMNS) rows
      \<longrightarrow> load (Reader rows None) = Inr [])"
proof (intro conjI impI)
  have "load_rows initial_state (map (without_columns M) rows) =
        load_rows initial_state (map (with_blank_columns M) rows)"
    by (rule load_rows_cong) (simp_all add: parse_int_without_columns abbr_of_without_columns)
  then show "load (Reader (map (without_columns M) rows) ending) =
             load (Reader (map (with_blank_columns M) rows) ending)"
    by (simp add: load_def)
next
  show "parse_int None = Inr None" by (rule parse_int_missing)
next
  assume "list_all (\<lambda>raw. raw ''nr'' = None \<and> list_all (\<lambda>column. raw column = None) STAR_COLUMNS) rows"
  from load_rows_no_cells [OF this, of initial_state]
  show "load (Reader rows None) = Inr []" by (auto simp add: load_def initial_state_def)
qed

theorem missing_columns_read_as_blank_witness:
  "list_all (\<lambda>raw. raw ''nr'' = None \<and> list_all (\<lambda>column. raw column = None) STAR_COLUMNS)
     [abr_only_row, abr_only_row] \<and>
   load (Reader [abr_only_row, abr_only_row] None) = Inr []"
  using missing_columns_read_as_blank [of _ "[abr_only_row, abr_only_row]"] abr_only_rows_no_cells
  by simp




end
